theory Spec2Isabelle
  imports Main "HOL-Library.Word"
begin

unbundle bit_operations_syntax

section \<open>The WXF codec of wxf\_parser.h\<close>

text \<open>
  The development follows the header file from top to bottom: the type tags, the
  primitive codec (varints and fixed-width scalars), the Encoder, the Token, the Parser
  and the tree builder MakeExprTree.

  Conventions of the embedding.
  \<^item> \<open>uint8_t\<close> is \<open>8 word\<close>; \<open>size_t\<close>, \<open>uint64_t\<close> and \<open>int64_t\<close> are
    \<open>64 word\<close>: \<open>+\<close> and \<open>*\<close> wrap, \<open>sint\<close> reads the signed value. An
    \<open>int\<close> that receives a 64-bit value (the element type and the rank of an array)
    is a \<open>32 word\<close>, so that the truncation is the code's; the \<open>int\<close> members
    \<open>err\<close> and \<open>rank\<close>, which only hold values that fit, are HOL's \<open>int\<close>.
  \<^item> A byte vector is a list of bytes. The number of elements of a vector or of the
    input buffer is a \<open>nat\<close> (it is always far below \<open>2 ^ 64\<close>), so indices into
    vectors are \<open>nat\<close> as well; the Parser's cursor \<open>pos\<close>, which the code
    advances by attacker-controlled amounts, stays a \<open>64 word\<close>.
  \<^item> A pointer into the input buffer is the offset from its start; \<open>None\<close> is the
    null pointer. A pointer to a node of the tree is the path of child indices that
    leads from the root to that node.
  \<^item> Undefined behaviour and thrown exceptions are values of the type \<open>fault\<close>; a
    function that can run into one returns \<open>fault + 'a\<close>.
  \<^item> The host is little-endian, as \<open>memcpy\<close> of a scalar gives the wire order only
    there. Memory allocation succeeds, except where the code itself throws.
\<close>

type_synonym byte = "8 word"
type_synonym u64 = "64 word"

subsection \<open>Type tags\<close>

datatype WXF_HEAD =
    func | association | delay_rule | rule
  | symbol | string | binary_string | bigint | bigreal
  | i8 | i16 | i32 | i64 | f64
  | array | narray

text \<open>The enumerator values, \<open>(uint8_t)WXF_HEAD::x\<close>.\<close>

fun byte_of_head :: "WXF_HEAD \<Rightarrow> byte" where
  "byte_of_head func = 102"
| "byte_of_head association = 65"
| "byte_of_head delay_rule = 58"
| "byte_of_head rule = 45"
| "byte_of_head symbol = 115"
| "byte_of_head string = 83"
| "byte_of_head binary_string = 66"
| "byte_of_head bigint = 73"
| "byte_of_head bigreal = 82"
| "byte_of_head i8 = 67"
| "byte_of_head i16 = 106"
| "byte_of_head i32 = 105"
| "byte_of_head i64 = 76"
| "byte_of_head f64 = 114"
| "byte_of_head array = 193"
| "byte_of_head narray = 194"

text \<open>
  \<open>(WXF_HEAD)(buffer[pos])\<close>: the enumerator with that value, or \<open>None\<close> for a byte
  that is no enumerator (the \<open>default\<close> label of the switch in \<open>Parser::parse\<close>).
\<close>

definition head_of_byte :: "byte \<Rightarrow> WXF_HEAD option" where
  "head_of_byte b =
     (if b = 102 then Some func
      else if b = 65 then Some association
      else if b = 58 then Some delay_rule
      else if b = 45 then Some rule
      else if b = 115 then Some symbol
      else if b = 83 then Some string
      else if b = 66 then Some binary_string
      else if b = 73 then Some bigint
      else if b = 82 then Some bigreal
      else if b = 67 then Some i8
      else if b = 106 then Some i16
      else if b = 105 then Some i32
      else if b = 76 then Some i64
      else if b = 114 then Some f64
      else if b = 193 then Some array
      else if b = 194 then Some narray
      else None)"

fun size_of_head_num_type :: "WXF_HEAD \<Rightarrow> u64" where
  "size_of_head_num_type i8 = 1"
| "size_of_head_num_type i16 = 2"
| "size_of_head_num_type i32 = 4"
| "size_of_head_num_type i64 = 8"
| "size_of_head_num_type f64 = 8"
| "size_of_head_num_type _ = 0"

text \<open>\<open>size_t(1) << (num_type & 0b111)\<close>, with \<open>num_type\<close> an \<open>int\<close>.\<close>

definition size_of_arr_num_type :: "32 word \<Rightarrow> u64" where
  "size_of_arr_num_type num_type = push_bit (unat (num_type AND 7)) 1"

definition minimal_signed_bits :: "u64 \<Rightarrow> byte" where
  "minimal_signed_bits x =
     (if - 128 \<le> sint x \<and> sint x \<le> 127 then 0
      else if - 32768 \<le> sint x \<and> sint x \<le> 32767 then 1
      else if - 2147483648 \<le> sint x \<and> sint x \<le> 2147483647 then 2
      else 3)"

subsection \<open>Primitive codec\<close>

text \<open>
  \<open>serialize_varint\<close>: the do-while loop fills \<open>temp[0..i)\<close>, which is then appended
  to the buffer. \<open>serialize_varint_temp val\<close> is that filled part of \<open>temp\<close>.
\<close>

function serialize_varint_temp :: "u64 \<Rightarrow> byte list" where
  "serialize_varint_temp val =
     (if drop_bit 7 val \<noteq> 0
      then (ucast (val AND 0x7F) OR 0x80) # serialize_varint_temp (drop_bit 7 val)
      else [ucast (val AND 0x7F)])"
  by pat_completeness auto
termination
proof (relation "measure unat")
  show "wf (measure (unat :: u64 \<Rightarrow> nat))" by simp
next
  fix val :: u64
  assume nz: "drop_bit 7 val \<noteq> 0"
  then have "val \<noteq> 0" by auto
  then have "0 < unat val" by (simp add: unat_gt_0)
  then have "unat val div 2 ^ 7 < unat val" by (intro div_less_dividend) simp_all
  then show "(drop_bit 7 val, val) \<in> measure unat"
    by (simp add: drop_bit_eq_div unat_div)
qed

declare serialize_varint_temp.simps [simp del]

definition serialize_varint :: "byte list \<Rightarrow> u64 \<Rightarrow> byte list" where
  "serialize_varint buffer val = buffer @ serialize_varint_temp val"

text \<open>
  \<open>serialize_binary(buffer, value)\<close> copies the \<open>sizeof(T)\<close> bytes of a scalar;
  \<open>word_bytes\<close> is that byte image of a word, least significant byte first.
\<close>

definition word_bytes :: "'a::len word \<Rightarrow> byte list" where
  "word_bytes w = map (\<lambda>i. ucast (drop_bit (8 * i) w)) [0..<LENGTH('a) div 8]"

definition serialize_binary :: "byte list \<Rightarrow> 'a::len word \<Rightarrow> byte list" where
  "serialize_binary buffer v = buffer @ word_bytes v"

subsection \<open>Encoder\<close>

text \<open>
  The struct Encoder has the single member \<open>buffer\<close>; every push operation returns
  \<open>*this\<close>. An operation is modelled as a function from the buffer before the call to
  the buffer after it.
\<close>

definition push_ustr :: "byte list \<Rightarrow> byte list \<Rightarrow> byte list" where
  "push_ustr buffer str = buffer @ str"

definition push_integer :: "byte list \<Rightarrow> u64 \<Rightarrow> byte list" where
  "push_integer buffer val =
     (let num_type = minimal_signed_bits val in
      if num_type = 0 then serialize_binary (buffer @ [byte_of_head i8]) (ucast val :: 8 word)
      else if num_type = 1 then serialize_binary (buffer @ [byte_of_head i16]) (ucast val :: 16 word)
      else if num_type = 2 then serialize_binary (buffer @ [byte_of_head i32]) (ucast val :: 32 word)
      else if num_type = 3 then serialize_binary (buffer @ [byte_of_head i64]) val
      else buffer)"

definition push_string :: "byte list \<Rightarrow> byte list \<Rightarrow> WXF_HEAD \<Rightarrow> byte list" where
  "push_string buffer str type =
     push_ustr (serialize_varint (buffer @ [byte_of_head type]) (of_nat (length str))) str"

definition push_symbol :: "byte list \<Rightarrow> byte list \<Rightarrow> byte list" where
  "push_symbol buffer str = push_string buffer str symbol"

definition push_function :: "byte list \<Rightarrow> byte list \<Rightarrow> u64 \<Rightarrow> byte list" where
  "push_function buffer head num_vars =
     push_string (serialize_varint (buffer @ [byte_of_head func]) num_vars) head symbol"

definition push_association :: "byte list \<Rightarrow> u64 \<Rightarrow> byte list" where
  "push_association buffer num_rules =
     serialize_varint (buffer @ [byte_of_head association]) num_rules"

definition push_rule :: "byte list \<Rightarrow> byte list" where
  "push_rule buffer = buffer @ [byte_of_head rule]"

definition push_delay_rule :: "byte list \<Rightarrow> byte list" where
  "push_delay_rule buffer = buffer @ [byte_of_head delay_rule]"




subsection \<open>Faults\<close>

text \<open>
  What the C++ code can run into instead of returning: an index past the end of the
  token vector, \<open>back()\<close> of an empty stack, a child slot that does not exist (also the
  null \<open>children\<close> of a node of size 0), a node pointer into a child array that was
  freed, a read through \<open>data\<close> that leaves the buffer or goes through the null pointer,
  a rank that does not fit the \<open>int\<close> of the Token constructor (its \<open>malloc\<close> size is
  then wrong and the writes to \<open>dimensions\<close> leave the block), and the
  \<open>std::bad_alloc\<close> that the ExprNode constructor throws.
\<close>

datatype fault =
    TokenIndexOutOfRange
  | EmptyStackBack
  | ChildSlotOutOfRange
  | DanglingNode
  | DataOutOfBuffer
  | RankOutOfInt
  | BadAlloc

subsection \<open>Token\<close>

text \<open>
  The union of \<open>length\<close> and \<open>dimensions\<close> is two fields, of which a token uses one:
  \<open>tok_length\<close> unless the type is \<open>array\<close> or \<open>narray\<close>, \<open>dimensions\<close>
  (element type, flattened length, then the sizes) for those two.
\<close>

record Token =
  tok_type :: WXF_HEAD
  rank :: int
  tok_length :: u64
  dimensions :: "u64 list"
  data :: "nat option"

text \<open>\<open>Token(t, len, d)\<close>.\<close>

definition Token_len :: "WXF_HEAD \<Rightarrow> u64 \<Rightarrow> nat option \<Rightarrow> Token" where
  "Token_len t len d =
     \<lparr>tok_type = t, rank = 0, tok_length = len, dimensions = [], data = d\<rparr>"

text \<open>
  \<open>Token(t, dims, num_type, len, d)\<close>. \<open>int r = dims.size()\<close> keeps the low 32 bits;
  the block is \<open>(r + 2) * sizeof(size_t)\<close> bytes and \<open>r\<close> sizes are copied into it,
  which is sound only for \<open>0 \<le> r\<close> with \<open>r + 2\<close> an \<open>int\<close>. \<open>dimensions[0] = num_type\<close>
  converts the \<open>int\<close> to \<open>size_t\<close> with sign extension.
\<close>

definition Token_arr ::
  "WXF_HEAD \<Rightarrow> u64 list \<Rightarrow> 32 word \<Rightarrow> u64 \<Rightarrow> nat option \<Rightarrow> fault + Token" where
  "Token_arr t dims num_type len d =
     (let r = sint (word_of_nat (length dims) :: 32 word) in
      if r < 0 \<or> 2147483647 < r + 2 then Inl RankOutOfInt
      else Inr \<lparr>tok_type = t, rank = r, tok_length = 0,
                dimensions = scast num_type # len # take (nat r) dims, data = d\<rparr>)"

text \<open>
  The typed getters read through \<open>data\<close>, a pointer into the buffer the token was parsed
  from; \<open>deref buf d n\<close> is the \<open>n\<close> bytes at \<open>d\<close>. A \<open>double\<close> is carried as its
  64-bit pattern, so the \<open>0\<close> that \<open>get_real\<close> returns is the pattern of \<open>+0.0\<close>.
\<close>

definition deref :: "byte list \<Rightarrow> nat option \<Rightarrow> nat \<Rightarrow> fault + byte list" where
  "deref buf d n =
     (case d of
        None \<Rightarrow> Inl DataOutOfBuffer
      | Some off \<Rightarrow>
          if off + n \<le> length buf then Inr (take n (drop off buf)) else Inl DataOutOfBuffer)"

definition word_of_bytes :: "byte list \<Rightarrow> 'a::len word" where
  "word_of_bytes bs = foldr (\<lambda>b w. push_bit 8 w OR ucast b) bs 0"

definition get_integer :: "byte list \<Rightarrow> Token \<Rightarrow> fault + u64" where
  "get_integer buf t =
     (if tok_type t = i8 then
        map_sum id (\<lambda>bs. scast (word_of_bytes bs :: 8 word)) (deref buf (data t) 1)
      else if tok_type t = i16 then
        map_sum id (\<lambda>bs. scast (word_of_bytes bs :: 16 word)) (deref buf (data t) 2)
      else if tok_type t = i32 then
        map_sum id (\<lambda>bs. scast (word_of_bytes bs :: 32 word)) (deref buf (data t) 4)
      else if tok_type t = i64 then
        map_sum id (\<lambda>bs. (word_of_bytes bs :: 64 word)) (deref buf (data t) 8)
      else Inr 0)"

definition get_real :: "byte list \<Rightarrow> Token \<Rightarrow> fault + u64" where
  "get_real buf t =
     (if tok_type t = f64 then
        map_sum id (\<lambda>bs. (word_of_bytes bs :: 64 word)) (deref buf (data t) 8)
      else Inr 0)"

text \<open>A \<open>std::string_view\<close>: pointer and size; the default one is null and empty.\<close>

record string_view =
  sv_data :: "nat option"
  sv_size :: u64

definition get_string_view :: "Token \<Rightarrow> string_view" where
  "get_string_view t =
     (if tok_type t = symbol \<or> tok_type t = bigint \<or> tok_type t = bigreal
         \<or> tok_type t = string \<or> tok_type t = binary_string
      then \<lparr>sv_data = data t, sv_size = tok_length t\<rparr>
      else \<lparr>sv_data = None, sv_size = 0\<rparr>)"

subsection \<open>Parser\<close>

text \<open>
  \<open>size_p\<close> is the member \<open>size\<close>, the number of bytes of \<open>buffer\<close>. Every read
  \<open>buffer ! i\<close> below stands under the code's own guard \<open>i < size\<close>.
\<close>

record Parser =
  buffer :: "byte list"
  pos :: u64
  size_p :: nat
  err :: int
  tokens :: "Token list"

text \<open>\<open>Parser(const std::vector<uint8_t>& buf)\<close>.\<close>

definition Parser_of :: "byte list \<Rightarrow> Parser" where
  "Parser_of buf = \<lparr>buffer = buf, pos = 0, size_p = length buf, err = 0, tokens = []\<rparr>"

text \<open>
  \<open>read_varint\<close> is written out ten times in the source, once per 7-bit group;
  \<open>read_varint_from\<close> is the code from group \<open>k\<close> on: \<open>ptr\<close> and \<open>end\<close> are offsets
  into the buffer, the group is shifted by \<open>7 * k\<close>, and only the first nine groups
  test the continuation bit and the end of the buffer.
\<close>

function read_varint_from :: "byte list \<Rightarrow> nat \<Rightarrow> nat \<Rightarrow> nat \<Rightarrow> u64 \<Rightarrow> u64 \<times> nat" where
  "read_varint_from buf end k ptr result =
     (let b = buf ! ptr;
          ptr' = ptr + 1;
          result' = result OR push_bit (7 * k) (ucast (b AND 0x7F))
      in if 9 \<le> k \<or> b AND 0x80 = 0 \<or> end \<le> ptr' then (result', ptr')
         else read_varint_from buf end (k + 1) ptr' result')"
  by pat_completeness auto
termination
  by (relation "measure (\<lambda>(buf, end, k, ptr, result). 9 - k)") auto

declare read_varint_from.simps [simp del]

definition read_varint :: "Parser \<Rightarrow> u64 \<times> Parser" where
  "read_varint p =
     (if size_p p \<le> unat (pos p) then (0, p)
      else let (result, ptr) = read_varint_from (buffer p) (size_p p) 0 (unat (pos p)) 0
           in (result, p\<lparr>pos := word_of_nat ptr\<rparr>))"

text \<open>The cases of the switch in \<open>Parser::parse\<close>, one definition per group of labels.\<close>

definition parse_number :: "WXF_HEAD \<Rightarrow> Parser \<Rightarrow> Parser" where
  "parse_number type p =
     (let length = size_of_head_num_type type
      in p\<lparr>tokens := tokens p @ [Token_len type length (Some (unat (pos p)))],
            pos := pos p + length\<rparr>)"

definition parse_text :: "WXF_HEAD \<Rightarrow> Parser \<Rightarrow> Parser" where
  "parse_text type p =
     (let (length, p1) = read_varint p
      in p1\<lparr>tokens := tokens p1 @ [Token_len type length (Some (unat (pos p1)))],
             pos := pos p1 + length\<rparr>)"

definition parse_counted :: "WXF_HEAD \<Rightarrow> Parser \<Rightarrow> Parser" where
  "parse_counted type p =
     (let (length, p1) = read_varint p
      in p1\<lparr>tokens := tokens p1 @ [Token_len type length (Some (unat (pos p1)))]\<rparr>)"

definition parse_rule :: "WXF_HEAD \<Rightarrow> Parser \<Rightarrow> Parser" where
  "parse_rule type p = p\<lparr>tokens := tokens p @ [Token_len type 2 (Some (unat (pos p)))]\<rparr>"

text \<open>
  The loop that fills \<open>dims\<close>: \<open>n\<close> counts the sizes still to read, \<open>dims\<close> holds
  those already read, \<open>all_len\<close> is their product as a \<open>size_t\<close>.
\<close>

fun read_dims :: "nat \<Rightarrow> Parser \<Rightarrow> u64 list \<Rightarrow> u64 \<Rightarrow> u64 list \<times> u64 \<times> Parser" where
  "read_dims 0 p dims all_len = (dims, all_len, p)"
| "read_dims (Suc n) p dims all_len =
     (let (d, p1) = read_varint p in read_dims n p1 (dims @ [d]) (all_len * d))"

definition parse_array :: "WXF_HEAD \<Rightarrow> Parser \<Rightarrow> fault + Parser" where
  "parse_array type p =
     (let (v, p1) = read_varint p;
          num_type = (ucast v :: 32 word);
          (r, p2) = read_varint p1;
          (dims, all_len, p3) = read_dims (unat r) p2 [] 1
      in case Token_arr type dims num_type all_len (Some (unat (pos p3))) of
           Inl f \<Rightarrow> Inl f
         | Inr t \<Rightarrow>
             Inr (p3\<lparr>tokens := tokens p3 @ [t],
                     pos := pos p3 + all_len * size_of_arr_num_type num_type\<rparr>))"

fun parse_switch :: "WXF_HEAD option \<Rightarrow> Parser \<Rightarrow> fault + Parser" where
  "parse_switch (Some i8) p = Inr (parse_number i8 p)"
| "parse_switch (Some i16) p = Inr (parse_number i16 p)"
| "parse_switch (Some i32) p = Inr (parse_number i32 p)"
| "parse_switch (Some i64) p = Inr (parse_number i64 p)"
| "parse_switch (Some f64) p = Inr (parse_number f64 p)"
| "parse_switch (Some symbol) p = Inr (parse_text symbol p)"
| "parse_switch (Some bigint) p = Inr (parse_text bigint p)"
| "parse_switch (Some bigreal) p = Inr (parse_text bigreal p)"
| "parse_switch (Some string) p = Inr (parse_text string p)"
| "parse_switch (Some binary_string) p = Inr (parse_text binary_string p)"
| "parse_switch (Some func) p = Inr (parse_counted func p)"
| "parse_switch (Some association) p = Inr (parse_counted association p)"
| "parse_switch (Some delay_rule) p = Inr (parse_rule delay_rule p)"
| "parse_switch (Some rule) p = Inr (parse_rule rule p)"
| "parse_switch (Some array) p = parse_array array p"
| "parse_switch (Some narray) p = parse_array narray p"
| "parse_switch None p = Inr (p\<lparr>err := 2\<rparr>)"

text \<open>
  The while loop of \<open>Parser::parse\<close>. The cursor can wrap around and move backwards
  (\<open>pos += length\<close> with a length taken from the input), so the loop need not end:
  \<open>parse_loop p = None\<close> is the run that never leaves the loop. The \<open>break\<close> of the
  \<open>default\<close> label leaves the switch, not the loop.
\<close>

partial_function (option) parse_loop :: "Parser \<Rightarrow> (fault + Parser) option" where
  "parse_loop p =
     (if unat (pos p) < size_p p then
        (let type = head_of_byte (buffer p ! unat (pos p));
             p1 = p\<lparr>pos := pos p + 1\<rparr>
         in if unat (pos p1) = size_p p1 then Some (Inr p1)
            else case parse_switch type p1 of
                   Inl f \<Rightarrow> Some (Inl f)
                 | Inr p2 \<Rightarrow> parse_loop p2)
      else Some (Inr p))"

declare parse_loop.simps [code]

text \<open>The statement \<open>err = 0\<close> after the loop.\<close>

definition parse_end :: "(fault + Parser) option \<Rightarrow> (fault + Parser) option" where
  "parse_end r = map_option (map_sum id (\<lambda>p. p\<lparr>err := 0\<rparr>)) r"

definition parse :: "Parser \<Rightarrow> (fault + Parser) option" where
  "parse p =
     (if pos p = 0 then
        (if size_p p < 2 \<or> buffer p ! 0 \<noteq> 56 \<or> buffer p ! 1 \<noteq> 58
         then Some (Inr (p\<lparr>err := 1\<rparr>))
         else parse_end (parse_loop (p\<lparr>pos := 2\<rparr>)))
      else parse_end (parse_loop p))"

subsection \<open>Expression tree\<close>

text \<open>
  \<open>children\<close> is the array behind the \<open>unique_ptr\<close>: the empty list for the null
  pointer, \<open>node_size\<close> nodes once the constructor has allocated it.
\<close>

datatype ExprNode =
  ExprNode (node_index: nat) (node_size: nat) (children: "ExprNode list") (node_type: WXF_HEAD)

text \<open>\<open>ExprNode()\<close>, which is also the state that \<open>clear()\<close> leaves a node in.\<close>

definition ExprNode_default :: ExprNode where
  "ExprNode_default = ExprNode 0 0 [] i8"

text \<open>\<open>ExprNode(idx, sz, t)\<close>, with \<open>MAX_ALLOC\<close> the largest \<open>int64_t\<close>.\<close>

definition ExprNode_new :: "nat \<Rightarrow> nat \<Rightarrow> WXF_HEAD \<Rightarrow> fault + ExprNode" where
  "ExprNode_new idx sz t =
     (if 9223372036854775807 < sz then Inl BadAlloc
      else Inr (ExprNode idx sz (replicate sz ExprNode_default) t))"

record ExprTree =
  tree_tokens :: "Token list"
  root :: ExprNode

text \<open>
  Node pointers are paths. \<open>node_at path n\<close> follows \<open>path\<close> down from \<open>n\<close> and is
  \<open>None\<close> when some child on the way does not exist; \<open>node_upd path f n\<close> replaces the
  node at \<open>path\<close> by its image under \<open>f\<close>.
\<close>

primrec node_at :: "nat list \<Rightarrow> ExprNode \<Rightarrow> ExprNode option" where
  "node_at [] n = Some n"
| "node_at (i # path) n =
     (if i < length (children n) then node_at path (children n ! i) else None)"

primrec node_upd :: "nat list \<Rightarrow> (ExprNode \<Rightarrow> ExprNode) \<Rightarrow> ExprNode \<Rightarrow> ExprNode" where
  "node_upd [] f n = f n"
| "node_upd (i # path) f n =
     ExprNode (node_index n) (node_size n)
       ((children n)[i := node_upd path f (children n ! i)]) (node_type n)"

subsection \<open>MakeExprTree\<close>

text \<open>
  The local state of \<open>MakeExprTree\<close>: the root of the tree under construction and the
  two stacks. The head of each list is \<open>back()\<close> of the vector.
\<close>

record builder =
  b_root :: ExprNode
  expr_stack :: "nat list list"
  node_stack :: "nat list"

text \<open>
  The recursive lambda \<open>move_to_next_node\<close>. It reads \<open>expr_stack.back()->size\<close>
  through the pointer on top of the stack.
\<close>

function move_to_next_node :: "builder \<Rightarrow> fault + builder" where
  "move_to_next_node b =
     (case node_stack b of
        [] \<Rightarrow> Inr b
      | k # ns \<Rightarrow>
          (case expr_stack b of
             [] \<Rightarrow> Inl EmptyStackBack
           | e # es \<Rightarrow>
               (case node_at e (b_root b) of
                  None \<Rightarrow> Inl DanglingNode
                | Some parent \<Rightarrow>
                    if node_size parent \<le> k + 1
                    then move_to_next_node (b\<lparr>expr_stack := es, node_stack := ns\<rparr>)
                    else Inr (b\<lparr>node_stack := (k + 1) # ns\<rparr>))))"
  by pat_completeness auto
termination
  by (relation "measure (\<lambda>b. length (node_stack b))") auto

declare move_to_next_node.simps [simp del]

text \<open>
  The three statements that open every branch of the loop body:
  \<open>node_pos = node_stack.back()\<close>, \<open>parent = expr_stack.back()\<close> and
  \<open>node = parent->children[node_pos]\<close>. The result is the parent's path and the slot.
\<close>

definition current_slot :: "builder \<Rightarrow> fault + nat list \<times> nat" where
  "current_slot b =
     (case node_stack b of
        [] \<Rightarrow> Inl EmptyStackBack
      | node_pos # _ \<Rightarrow>
          (case expr_stack b of
             [] \<Rightarrow> Inl EmptyStackBack
           | parent # _ \<Rightarrow>
               (case node_at parent (b_root b) of
                  None \<Rightarrow> Inl DanglingNode
                | Some pn \<Rightarrow>
                    if node_pos < length (children pn) then Inr (parent, node_pos)
                    else Inl ChildSlotOutOfRange)))"

text \<open>\<open>node = ExprNode(...)\<close>: the new node is moved into the slot.\<close>

definition assign_slot :: "builder \<Rightarrow> nat list \<Rightarrow> nat \<Rightarrow> ExprNode \<Rightarrow> builder" where
  "assign_slot b parent node_pos n =
     b\<lparr>b_root := node_upd (parent @ [node_pos]) (\<lambda>_. n) (b_root b)\<rparr>"

text \<open>\<open>expr_stack.push_back(&node); node_stack.push_back(0)\<close>.\<close>

definition push_frame :: "builder \<Rightarrow> nat list \<Rightarrow> builder" where
  "push_frame b node = b\<lparr>expr_stack := node # expr_stack b, node_stack := 0 # node_stack b\<rparr>"

text \<open>
  One pass through the body of the for loop at token \<open>tpos\<close> (the local \<open>pos\<close> of
  \<open>MakeExprTree\<close>). All three branches of the body start with the statements of
  \<open>current_slot\<close>. The result is the value of \<open>tpos\<close> at the end of the body (one more after a function, whose head is skipped)
  and the new state; the loop header then increments \<open>tpos\<close>.
\<close>

definition build_step :: "Token list \<Rightarrow> nat \<Rightarrow> builder \<Rightarrow> fault + nat \<times> builder" where
  "build_step toks tpos b =
     (let token = toks ! tpos in
      case current_slot b of
        Inl f \<Rightarrow> Inl f
      | Inr (parent, node_pos) \<Rightarrow>
          if tok_type token = func \<or> tok_type token = association then
            (if tok_type token = func then
               (case ExprNode_new (tpos + 1) (unat (tok_length token)) (tok_type token) of
                  Inl f \<Rightarrow> Inl f
                | Inr n \<Rightarrow>
                    Inr (tpos + 1,
                         push_frame (assign_slot b parent node_pos n) (parent @ [node_pos])))
             else
               (case ExprNode_new tpos (unat (tok_length token)) (tok_type token) of
                  Inl f \<Rightarrow> Inl f
                | Inr n \<Rightarrow>
                    Inr (tpos,
                         push_frame (assign_slot b parent node_pos n) (parent @ [node_pos]))))
          else if tok_type token = delay_rule \<or> tok_type token = rule then
            (case ExprNode_new tpos 2 (tok_type token) of
               Inl f \<Rightarrow> Inl f
             | Inr n \<Rightarrow>
                 Inr (tpos, push_frame (assign_slot b parent node_pos n) (parent @ [node_pos])))
          else
            (case ExprNode_new tpos 0 (tok_type token) of
               Inl f \<Rightarrow> Inl f
             | Inr n \<Rightarrow>
                 (case move_to_next_node (assign_slot b parent node_pos n) of
                    Inl f \<Rightarrow> Inl f
                  | Inr b' \<Rightarrow> Inr (tpos, b'))))"

function build_loop :: "Token list \<Rightarrow> nat \<Rightarrow> builder \<Rightarrow> fault + builder" where
  "build_loop toks tpos b =
     (if tpos < length toks then
        (case build_step toks tpos b of
           Inl f \<Rightarrow> Inl f
         | Inr (tpos', b') \<Rightarrow> build_loop toks (tpos' + 1) b')
      else Inr b)"
  by pat_completeness auto
termination
proof (relation "measure (\<lambda>(toks, tpos, b). length toks - tpos)")
  show "wf (measure (\<lambda>(toks :: Token list, tpos :: nat, b :: builder). length toks - tpos))"
    by simp
next
  fix toks :: "Token list" and tpos :: nat and b :: builder and x2 x y
  assume lt: "tpos < length toks" and st: "build_step toks tpos b = Inr x2" and x2: "(x, y) = x2"
  from st x2 have "tpos \<le> x"
    by (auto simp: build_step_def Let_def split: sum.splits if_splits prod.splits)
  with lt show "((toks, x + 1, y), (toks, tpos, b)) \<in> measure (\<lambda>(toks, tpos, b). length toks - tpos)"
    by simp
qed

declare build_loop.simps [simp del]

text \<open>
  The loop over \<open>expr_stack\<close> after the for loop, from the bottom of the stack to its
  top: \<open>node->clear()\<close> resets the node and frees its children, so a later pointer into
  them dangles.
\<close>

fun clear_nodes :: "nat list list \<Rightarrow> ExprNode \<Rightarrow> fault + ExprNode" where
  "clear_nodes [] r = Inr r"
| "clear_nodes (node # nodes) r =
     (case node_at node r of
        None \<Rightarrow> Inl DanglingNode
      | Some _ \<Rightarrow> clear_nodes nodes (node_upd node (\<lambda>_. ExprNode_default) r))"

text \<open>The end of \<open>MakeExprTree\<close>, from the for loop on, entered at token \<open>tpos\<close>.\<close>

definition build_from :: "Token list \<Rightarrow> nat \<Rightarrow> ExprNode \<Rightarrow> fault + ExprTree" where
  "build_from toks tpos r =
     (case build_loop toks tpos \<lparr>b_root = r, expr_stack = [[]], node_stack = [0]\<rparr> of
        Inl f \<Rightarrow> Inl f
      | Inr b \<Rightarrow>
          if node_stack b \<noteq> [] then
            (case clear_nodes (rev (expr_stack b)) (b_root b) of
               Inl f \<Rightarrow> Inl f
             | Inr r' \<Rightarrow> Inr \<lparr>tree_tokens = toks, root = r'\<rparr>)
          else Inr \<lparr>tree_tokens = toks, root = b_root b\<rparr>)"

definition MakeExprTree :: "Parser \<Rightarrow> fault + ExprTree" where
  "MakeExprTree parser =
     (if err parser \<noteq> 0 then Inr \<lparr>tree_tokens = [], root = ExprNode_default\<rparr>
      else
        (let toks = tokens parser in
         if length toks \<le> 0 then Inl TokenIndexOutOfRange
         else
           (let token = toks ! 0 in
            if tok_type token = func then
              (case ExprNode_new (0 + 1) (unat (tok_length token)) (tok_type token) of
                 Inl f \<Rightarrow> Inl f
               | Inr r \<Rightarrow> build_from toks (0 + 2) r)
            else if tok_type token = association then
              (case ExprNode_new (0 + 1) (unat (tok_length token)) (tok_type token) of
                 Inl f \<Rightarrow> Inl f
               | Inr r \<Rightarrow> build_from toks (0 + 1) r)
            else
              (case ExprNode_new 0 0 (tok_type token) of
                 Inl f \<Rightarrow> Inl f
               | Inr r \<Rightarrow> Inr \<lparr>tree_tokens = toks, root = r\<rparr>))))"

text \<open>\<open>MakeExprTree(const std::vector<uint8_t>& str)\<close>: parse, then build.\<close>

definition MakeExprTree_bytes :: "byte list \<Rightarrow> (fault + ExprTree) option" where
  "MakeExprTree_bytes str =
     (case parse (Parser_of str) of
        None \<Rightarrow> None
      | Some (Inl f) \<Rightarrow> Some (Inl f)
      | Some (Inr parser) \<Rightarrow> Some (MakeExprTree parser))"

section \<open>Notions of the specification\<close>

subsection \<open>The narrowest signed width\<close>

text \<open>
  The specification's words for \<open>push_integer\<close>: a value fits a signed width \<open>w\<close>
  when it lies between \<open>- 2 ^ (w - 1)\<close> and \<open>2 ^ (w - 1) - 1\<close>; the narrowest width is
  the first of 8, 16, 32, 64 that the value fits. \<open>le_bytes n v\<close> is \<open>v\<close> in \<open>n\<close>
  bytes, least significant first.
\<close>

definition fits_signed :: "nat \<Rightarrow> u64 \<Rightarrow> bool" where
  "fits_signed w v \<longleftrightarrow> - (2 ^ (w - 1)) \<le> sint v \<and> sint v < 2 ^ (w - 1)"

definition narrowest_width :: "u64 \<Rightarrow> nat" where
  "narrowest_width v = hd (filter (\<lambda>w. fits_signed w v) [8, 16, 32, 64])"

definition tag_of_width :: "nat \<Rightarrow> WXF_HEAD" where
  "tag_of_width w = (if w = 8 then i8 else if w = 16 then i16 else if w = 32 then i32 else i64)"

definition le_bytes :: "nat \<Rightarrow> u64 \<Rightarrow> byte list" where
  "le_bytes n v = map (\<lambda>i. ucast (drop_bit (8 * i) v)) [0..<n]"

subsection \<open>Where a token starts\<close>



subsection \<open>Well-formed token sequences and the trees they stand for\<close>

text \<open>
  The specification's words for the tree builder. An expression is a single token that
  opens nothing, or a composite: its token, the head tokens that belong to it (one for a
  function, whose head symbol follows the count; none for an association or a rule) and
  its children. \<open>flatten\<close> is the token sequence of an expression, depth first.
  The arity of a composite token is 2 for a rule and the declared count otherwise.
  An expression is well formed when every composite in it has exactly as many children
  as its arity, at least one and at most the largest \<open>int64_t\<close>.
  \<open>node_of i x\<close> is the node that the specification expects for the expression \<open>x\<close>
  whose first token has index \<open>i\<close>, with the indices that the builder gives: the
  head's for a function, the token's own otherwise. A node is populated when it holds
  as many children as its size says, all of them populated.
\<close>

datatype expr = Leaf Token | Comp Token "Token list" "expr list"

fun flatten :: "expr \<Rightarrow> Token list" where
  "flatten (Leaf t) = [t]"
| "flatten (Comp t hs cs) = t # hs @ concat (map flatten cs)"




fun node_of :: "nat \<Rightarrow> expr \<Rightarrow> ExprNode" and nodes_of :: "nat \<Rightarrow> expr list \<Rightarrow> ExprNode list" where
  "node_of i (Leaf t) = ExprNode i 0 [] (tok_type t)"
| "node_of i (Comp t hs cs) =
     ExprNode (i + length hs) (length cs) (nodes_of (i + 1 + length hs) cs) (tok_type t)"
| "nodes_of i [] = []"
| "nodes_of i (c # cs) = node_of i c # nodes_of (i + length (flatten c)) cs"


section \<open>Properties\<close>

subsection \<open>The header check\<close>

text \<open>
  Claim C7. A parser freshly constructed over a buffer whose first two bytes are not
  \<open>0x38 0x3A\<close>, or which has fewer than two bytes, returns from \<open>parse\<close> with \<open>err\<close>
  set to 1; the cursor is still at 0 and not one token has been emitted, whatever the
  rest of the buffer holds.
\<close>

theorem parse_bad_header:
  "\<not> (2 \<le> length buf \<and> buf ! 0 = 56 \<and> buf ! 1 = 58) \<Longrightarrow>
   parse (Parser_of buf) =
     Some (Inr \<lparr>buffer = buf, pos = 0, size_p = length buf, err = 1, tokens = []\<rparr>)"
  by (auto simp: parse_def Parser_of_def)

theorem parse_bad_header_witness:
  "parse (Parser_of [56, 59, 67, 1]) =
     Some (Inr \<lparr>buffer = [56, 59, 67, 1], pos = 0, size_p = 4, err = 1, tokens = []\<rparr>)
   \<and> parse (Parser_of [56]) =
       Some (Inr \<lparr>buffer = [56], pos = 0, size_p = 1, err = 1, tokens = []\<rparr>)"
proof -
  have h: "\<not> (2 \<le> length [56, 59, 67, 1 :: byte] \<and> [56, 59, 67, 1 :: byte] ! 0 = 56
              \<and> [56, 59, 67, 1 :: byte] ! 1 = 58)"
    by simp
  have h': "\<not> (2 \<le> length [56 :: byte] \<and> [56 :: byte] ! 0 = 56 \<and> [56 :: byte] ! 1 = 58)"
    by simp
  from parse_bad_header [OF h] parse_bad_header [OF h'] show ?thesis by simp
qed

subsection \<open>An unknown tag\<close>

text \<open>
  Claim C1, evaluated. The buffer is the header, the byte 0, which is no tag, and the
  int8 token \<open>67 1\<close>. \<open>parse\<close> sets \<open>err\<close> to 2 at the byte 0, stays in the loop,
  emits the int8 token and leaves with \<open>err\<close> reset to 0: the caller sees no error.
\<close>

theorem parse_unknown_tag_err_zero:
  "head_of_byte 0 = None \<and>
   parse (Parser_of [56, 58, 0, 67, 1]) =
     Some (Inr \<lparr>buffer = [56, 58, 0, 67, 1], pos = 5, size_p = 5, err = 0,
                 tokens = [\<lparr>tok_type = i8, rank = 0, tok_length = 1, dimensions = [],
                            data = Some 4\<rparr>]\<rparr>)"
  by (simp add: parse_def Parser_of_def parse_loop.simps head_of_byte_def parse_end_def
      parse_number_def Token_len_def Let_def)

theorem parse_unknown_tag_err_zero_witness:
  "\<exists>p. parse (Parser_of [56, 58, 0, 67, 1]) = Some (Inr p) \<and> err p = 0
        \<and> map tok_type (tokens p) = [i8]"
  using parse_unknown_tag_err_zero by simp

subsection \<open>The tree builder on an empty token list\<close>

lemma parse_header_only:
  "parse (Parser_of [56, 58]) =
     Some (Inr \<lparr>buffer = [56, 58], pos = 2, size_p = 2, err = 0, tokens = []\<rparr>)"
  by (simp add: parse_def Parser_of_def parse_loop.simps parse_end_def)

text \<open>
  Claim C9. \<open>MakeExprTree\<close> tests \<open>err\<close> only: on a parser with \<open>err = 0\<close> and no
  tokens it evaluates \<open>tokens[0]\<close>, an access past the end of the empty vector. The
  buffer that is the two header bytes alone leaves \<open>parse\<close> in exactly that state.
\<close>

theorem MakeExprTree_empty_tokens:
  "err parser = 0 \<Longrightarrow> tokens parser = [] \<Longrightarrow> MakeExprTree parser = Inl TokenIndexOutOfRange"
  by (simp add: MakeExprTree_def)

theorem MakeExprTree_empty_tokens_witness:
  "parse (Parser_of [56, 58]) =
     Some (Inr \<lparr>buffer = [56, 58], pos = 2, size_p = 2, err = 0, tokens = []\<rparr>)
   \<and> MakeExprTree \<lparr>buffer = [56, 58], pos = 2, size_p = 2, err = 0, tokens = []\<rparr>
       = Inl TokenIndexOutOfRange"
  using MakeExprTree_empty_tokens
      [of "\<lparr>buffer = [56, 58], pos = 2, size_p = 2, err = 0, tokens = []\<rparr>"]
    parse_header_only
  by simp

subsection \<open>Typed getters on a token of another type\<close>

text \<open>
  Claim C10. On a token whose type is none of the four integer tags \<open>get_integer\<close>
  returns 0, on one whose type is not \<open>f64\<close> \<open>get_real\<close> returns 0, and on one whose
  type is none of the five textual tags \<open>get_string_view\<close> returns the empty view; none
  of them touches \<open>data\<close> there, so none can fail, whatever the buffer and the pointer.
\<close>

theorem getters_default_on_wrong_type:
  "(tok_type t \<notin> {i8, i16, i32, i64} \<longrightarrow> get_integer buf t = Inr 0)
   \<and> (tok_type t \<noteq> f64 \<longrightarrow> get_real buf t = Inr 0)
   \<and> (tok_type t \<notin> {symbol, bigint, bigreal, string, binary_string} \<longrightarrow>
        get_string_view t = \<lparr>sv_data = None, sv_size = 0\<rparr>)"
  by (simp add: get_integer_def get_real_def get_string_view_def)

theorem getters_default_on_wrong_type_witness:
  "get_integer [56, 58, 102, 2] (Token_len func 2 (Some 4)) = Inr 0
   \<and> get_real [56, 58, 102, 2] (Token_len func 2 (Some 4)) = Inr 0
   \<and> get_string_view (Token_len func 2 (Some 4)) = \<lparr>sv_data = None, sv_size = 0\<rparr>"
  using getters_default_on_wrong_type [of "Token_len func 2 (Some 4)" "[56, 58, 102, 2]"]
  by (simp add: Token_len_def)

subsection \<open>Integers are pushed in the narrowest width\<close>

lemma byte_of_ucast:
  "8 * i + 8 \<le> LENGTH('a) \<Longrightarrow>
   (ucast (drop_bit (8 * i) (ucast (v :: u64) :: 'a::len word)) :: byte)
     = ucast (drop_bit (8 * i) v)"
  by (rule bit_word_eqI) (auto simp: bit_simps)

lemma word_bytes_ucast:
  assumes "LENGTH('a::len) = 8 * n"
  shows "word_bytes (ucast (v :: u64) :: 'a word) = le_bytes n v"
  unfolding word_bytes_def le_bytes_def using assms
  by (auto simp: byte_of_ucast)

lemma word_bytes_u64: "word_bytes (v :: u64) = le_bytes 8 v"
  by (simp add: word_bytes_def le_bytes_def)

lemma fits_signed_64: "fits_signed 64 v"
  unfolding fits_signed_def using sint_ge [of v] sint_lt [of v] by simp

lemma narrowest_width_cases:
  "narrowest_width v =
     (if fits_signed 8 v then 8 else if fits_signed 16 v then 16
      else if fits_signed 32 v then 32 else 64)"
  by (simp add: narrowest_width_def fits_signed_64)

lemma minimal_signed_bits_fits:
  "minimal_signed_bits v =
     (if fits_signed 8 v then 0 else if fits_signed 16 v then 1
      else if fits_signed 32 v then 2 else 3)"
  by (auto simp: minimal_signed_bits_def fits_signed_def)

text \<open>
  Claim C4. For every 64-bit value, \<open>push_integer\<close> appends the tag of the narrowest of
  the widths 8, 16, 32, 64 that holds the value as a signed number, followed by the
  value in that many bits, least significant byte first. The width chosen holds the
  value and no smaller one of the four does.
\<close>

theorem push_integer_narrowest:
  "push_integer buf v =
     buf @ byte_of_head (tag_of_width (narrowest_width v))
         # le_bytes (narrowest_width v div 8) v
   \<and> narrowest_width v \<in> {8, 16, 32, 64}
   \<and> fits_signed (narrowest_width v) v
   \<and> (\<forall>w \<in> {8, 16, 32, 64}. w < narrowest_width v \<longrightarrow> \<not> fits_signed w v)"
  by (simp add: push_integer_def minimal_signed_bits_fits narrowest_width_cases
      serialize_binary_def tag_of_width_def word_bytes_ucast [where n = 1]
      word_bytes_ucast [where n = 2] word_bytes_ucast [where n = 4] word_bytes_u64
      fits_signed_64)

theorem push_integer_narrowest_witness:
  "push_integer [] 127 = [67, 127] \<and> push_integer [] 128 = [106, 128, 0]
   \<and> push_integer [] 2147483648 = [76, 0, 0, 0, 128, 0, 0, 0, 0]"
  using push_integer_narrowest [of "[]" 127] push_integer_narrowest [of "[]" 128]
    push_integer_narrowest [of "[]" 2147483648]
  by (simp add: narrowest_width_cases fits_signed_def tag_of_width_def le_bytes_def upt_rec)

subsection \<open>Varints\<close>

lemma mask7: "(0x7F :: 'a::len word) = mask 7"
  by (simp add: mask_eq_exp_minus_1)

lemma bit_128_int: "bit (128 :: int) n \<longleftrightarrow> n = 7"
proof -
  have "(128 :: int) = 2 ^ 7" by simp
  then show ?thesis
    by (auto simp only: bit_exp_iff possible_bit_def)
qed

lemma group_low: "(ucast ((ucast (v AND 0x7F :: u64) :: byte) AND 0x7F) :: u64) = v AND 0x7F"
  unfolding mask7 by (rule bit_word_eqI) (auto simp: bit_simps)

lemma group_low_cont:
  "(ucast (((ucast (v AND 0x7F :: u64) :: byte) OR 0x80) AND 0x7F) :: u64) = v AND 0x7F"
  unfolding mask7 by (rule bit_word_eqI) (auto simp: bit_simps bit_128_int)

lemma group_flag_clear: "(ucast (v AND 0x7F :: u64) :: byte) AND 0x80 = 0"
  unfolding mask7 by (rule bit_word_eqI) (auto simp: bit_simps bit_128_int)

lemma group_flag_set: "((ucast (v AND 0x7F :: u64) :: byte) OR 0x80) AND 0x80 \<noteq> 0"
proof -
  have "bit (((ucast (v AND 0x7F :: u64) :: byte) OR 0x80) AND 0x80) 7"
    by (simp add: bit_simps bit_128_int)
  then show ?thesis by auto
qed

lemma low_group_all: "drop_bit 7 (v :: u64) = 0 \<Longrightarrow> v AND 0x7F = v"
  unfolding mask7
  by (metis take_bit_eq_mask take_bit_eq_self_iff_drop_bit_eq_0)

lemma regroup:
  "push_bit (7 * k) (v AND 0x7F) OR push_bit (7 * (k + 1)) (drop_bit 7 v) = push_bit (7 * k) (v :: u64)"
  unfolding mask7
proof (rule bit_word_eqI)
  fix n
  assume "n < LENGTH(64)"
  have *: "7 + (n - (7 + 7 * k)) = n - 7 * k" if "7 \<le> n - 7 * k"
    using that by arith
  show "bit (push_bit (7 * k) (v AND mask 7) OR push_bit (7 * (k + 1)) (drop_bit 7 v)) n
        \<longleftrightarrow> bit (push_bit (7 * k) v) n"
    by (cases "n - 7 * k < 7") (auto simp: bit_simps *)
qed

lemma temp_nonempty: "serialize_varint_temp v \<noteq> []"
  by (subst serialize_varint_temp.simps) simp

lemma drop7_bound:
  assumes "unat (v :: u64) < 2 ^ (7 * m)" 
  shows "unat (drop_bit 7 v) < 2 ^ (7 * (m - 1))"
proof (cases m)
  case 0
  with assms have "unat v = 0" by simp
  then have "v = 0" by (simp add: unat_eq_0)
  then show ?thesis by simp
next
  case (Suc j)
  have "unat (drop_bit 7 v) = unat v div 2 ^ 7"
    by (simp add: drop_bit_eq_div unat_div)
  moreover from assms Suc have "unat v < 2 ^ 7 * 2 ^ (7 * j)"
    by (simp add: power_add)
  then have "unat v div 2 ^ 7 < 2 ^ (7 * j)"
    by (simp add: less_mult_imp_div_less mult.commute)
  ultimately show ?thesis using Suc by simp
qed

lemma temp_length: "unat v < 2 ^ (7 * m) \<Longrightarrow> 0 < m \<Longrightarrow> length (serialize_varint_temp v) \<le> m"
proof (induction v arbitrary: m rule: serialize_varint_temp.induct)
  case (1 val)
  show ?case
  proof (cases "drop_bit 7 val = 0")
    case True
    then show ?thesis using "1.prems" by (subst serialize_varint_temp.simps) simp
  next
    case False
    from "1.prems" have b: "unat (drop_bit 7 val) < 2 ^ (7 * (m - 1))" by (rule_tac drop7_bound)
    have "0 < m - 1"
    proof (rule ccontr)
      assume "\<not> 0 < m - 1"
      with b have "unat (drop_bit 7 val) = 0" by simp
      with False show False by (simp add: unat_eq_0)
    qed
    with "1.IH" [OF False b] have "length (serialize_varint_temp (drop_bit 7 val)) \<le> m - 1" .
    then show ?thesis using False \<open>0 < m - 1\<close>
      by (subst serialize_varint_temp.simps) simp
  qed
qed

lemma temp_length_10: "length (serialize_varint_temp v) \<le> 10"
proof -
  have "unat v < 2 ^ 64" using unsigned_less [of v] by simp
  also have "(2::nat) ^ 64 \<le> 2 ^ (7 * 10)" by simp
  finally show ?thesis by (rule temp_length) simp
qed

lemma read_varint_from_temp:
  assumes "k \<le> 9" and "unat v < 2 ^ (64 - 7 * k)"
    and "length pre + length (serialize_varint_temp v) \<le> end"
  shows "read_varint_from (pre @ serialize_varint_temp v @ post) end k (length pre) result
         = (result OR push_bit (7 * k) v, length pre + length (serialize_varint_temp v))"
  using assms
proof (induction v arbitrary: k pre result rule: serialize_varint_temp.induct)
  case (1 val)
  let ?b0 = "ucast (val AND 0x7F) :: byte"
  show ?case
  proof (cases "drop_bit 7 val = 0")
    case True
    define b0 where "b0 = ?b0"
    from True have temp: "serialize_varint_temp val = [b0]"
      unfolding b0_def by (subst serialize_varint_temp.simps) simp
    have f1: "b0 AND 0x80 = 0"
      unfolding b0_def by (rule group_flag_clear)
    have "(ucast (?b0 AND 0x7F) :: u64) = val AND 0x7F"
      by (rule group_low)
    also have "\<dots> = val"
      by (rule low_group_all [OF True])
    finally have f2: "ucast (b0 AND 0x7F) = val"
      unfolding b0_def .
    show ?thesis
      unfolding temp
      by (subst read_varint_from.simps) (simp add: Let_def f1 f2)
  next
    case False
    let ?b = "?b0 OR 0x80"
    let ?rest = "serialize_varint_temp (drop_bit 7 val)"
    from False have temp: "serialize_varint_temp val = ?b # ?rest"
      by (subst serialize_varint_temp.simps) simp
    have k8: "k \<le> 8"
    proof (rule ccontr)
      assume "\<not> k \<le> 8"
      with "1.prems"(1) have "k = 9" by simp
      with "1.prems"(2) have "unat val < 2 ^ 1" by simp
      then have "unat val div 2 ^ 7 = 0" by simp
      then have "unat (drop_bit 7 val) = 0" by (simp add: drop_bit_eq_div unat_div)
      with False show False by (simp add: unat_eq_0)
    qed
    have bound: "unat (drop_bit 7 val) < 2 ^ (64 - 7 * (k + 1))"
    proof -
      from k8 have e: "64 - 7 * k = 7 + (64 - 7 * (k + 1))" by simp
      have "unat val < 2 ^ 7 * 2 ^ (64 - 7 * (k + 1))"
        using "1.prems"(2) unfolding e power_add .
      then have "unat val div 2 ^ 7 < 2 ^ (64 - 7 * (k + 1))"
        by (simp add: less_mult_imp_div_less mult.commute)
      then show ?thesis by (simp add: drop_bit_eq_div unat_div)
    qed
    have len: "length (pre @ [?b]) + length ?rest \<le> end"
      using "1.prems"(3) by (simp add: temp)
    have more: "\<not> end \<le> length pre + 1"
      using "1.prems"(3) temp_nonempty [of "drop_bit 7 val"]
      by (cases ?rest) (simp_all add: temp)
    from k8 have k1: "k + 1 \<le> 9" by simp
    note IH = "1.IH" [OF False k1 bound len, of "result OR push_bit (7 * k) (val AND 0x7F)"]
    have step: "read_varint_from (pre @ ?b # ?rest @ post) end k (length pre) result
         = read_varint_from ((pre @ [?b]) @ ?rest @ post) end (k + 1) (length (pre @ [?b]))
             (result OR push_bit (7 * k) (val AND 0x7F))"
      using k8 more
      by (subst read_varint_from.simps)
        (simp add: Let_def group_flag_set group_low_cont)
    show ?thesis
      unfolding temp using step IH regroup [of k val]
      by (simp add: or.assoc)
  qed
qed

lemma read_varint_temp:
  "read_varint (Parser_of (serialize_varint_temp v @ post))
   = (v, (Parser_of (serialize_varint_temp v @ post))
           \<lparr>pos := word_of_nat (length (serialize_varint_temp v))\<rparr>)"
proof -
  have "unat v < 2 ^ 64" using unsigned_less [of v] by simp
  then have "read_varint_from ([] @ serialize_varint_temp v @ post)
       (length (serialize_varint_temp v @ post)) 0 (length ([] :: byte list)) 0
     = (0 OR push_bit (7 * 0) v, length ([] :: byte list) + length (serialize_varint_temp v))"
    by (intro read_varint_from_temp) simp_all
  then show ?thesis
    using temp_nonempty [of v]
    by (simp add: read_varint_def Parser_of_def)
qed

lemma temp_flags:
  "map (\<lambda>b. b AND 0x80 \<noteq> 0) (serialize_varint_temp v)
   = replicate (length (serialize_varint_temp v) - 1) True @ [False]"
proof (induction v rule: serialize_varint_temp.induct)
  case (1 val)
  show ?case
  proof (cases "drop_bit 7 val = 0")
    case True
    then show ?thesis
      by (subst (1 2) serialize_varint_temp.simps) (simp add: group_flag_clear)
  next
    case False
    have "length (serialize_varint_temp (drop_bit 7 val)) \<noteq> 0"
      using temp_nonempty by simp
    then obtain n where n: "length (serialize_varint_temp (drop_bit 7 val)) = Suc n"
      by (cases "length (serialize_varint_temp (drop_bit 7 val))") auto
    from False "1.IH" n show ?thesis
      by (subst (1 2) serialize_varint_temp.simps) (simp add: group_flag_set)
  qed
qed

lemma temp_groups:
  "map (\<lambda>b. ucast (b AND 0x7F)) (serialize_varint_temp v)
   = map (\<lambda>i. drop_bit (7 * i) v AND 0x7F) [0..<length (serialize_varint_temp v)]"
proof (induction v rule: serialize_varint_temp.induct)
  case (1 val)
  show ?case
  proof (cases "drop_bit 7 val = 0")
    case True
    then show ?thesis
      by (subst (1 2) serialize_varint_temp.simps) (simp add: group_low)
  next
    case False
    have shift: "[0..<Suc n] = 0 # map Suc [0..<n]" for n
      by (simp add: upt_conv_Cons map_Suc_upt del: upt_Suc)
    have "drop_bit (7 * Suc i) val = drop_bit (7 * i) (drop_bit 7 val)" for i
      by (simp add: drop_bit_drop_bit add.commute)
    with False "1.IH" show ?thesis
      by (subst (1 2) serialize_varint_temp.simps)
        (simp add: group_low_cont shift comp_def del: upt_Suc)
  qed
qed

text \<open>
  Claim C6. For every 64-bit value, \<open>serialize_varint\<close> appends at most ten bytes;
  every one of them but the last has its high bit set, the last has it clear; the low
  seven bits of the \<open>i\<close>-th byte are the bits \<open>7 i\<close> to \<open>7 i + 6\<close> of the value; and
  \<open>read_varint\<close> on a parser over these bytes returns the value and leaves the cursor
  behind them.
\<close>

theorem varint_roundtrip:
  "serialize_varint buf v = buf @ serialize_varint [] v
   \<and> length (serialize_varint [] v) \<le> 10
   \<and> map (\<lambda>b. b AND 0x80 \<noteq> 0) (serialize_varint [] v)
       = replicate (length (serialize_varint [] v) - 1) True @ [False]
   \<and> map (\<lambda>b. ucast (b AND 0x7F)) (serialize_varint [] v)
       = map (\<lambda>i. drop_bit (7 * i) v AND 0x7F) [0..<length (serialize_varint [] v)]
   \<and> read_varint (Parser_of (serialize_varint [] v))
       = (v, (Parser_of (serialize_varint [] v))
               \<lparr>pos := word_of_nat (length (serialize_varint [] v))\<rparr>)"
  using temp_length_10 [of v] temp_flags [of v] temp_groups [of v]
    read_varint_temp [of v "[]"]
  by (simp add: serialize_varint_def)

theorem varint_roundtrip_witness:
  "serialize_varint [] 300 = [172, 2]
   \<and> read_varint (Parser_of [172, 2])
       = (300, \<lparr>buffer = [172, 2], pos = 2, size_p = 2, err = 0, tokens = []\<rparr>)"
proof -
  have e: "serialize_varint [] 300 = [172, 2]"
    by (simp add: serialize_varint_def serialize_varint_temp.simps)
  from varint_roundtrip [of "[]" 300] show ?thesis
    unfolding e by (simp add: Parser_of_def)
qed

subsection \<open>Arrays: the shape check of the Encoder\<close>







subsection \<open>Arrays: rank and dimensions in the Parser\<close>








subsection \<open>What the Parser checks against the end of the buffer\<close>










subsection \<open>The tree builder\<close>







lemma length_nodes_of [simp]: "length (nodes_of i cs) = length cs"
  by (induction cs arbitrary: i) simp_all






















text \<open>
  What the amended claim leaves out. A token after the stack has emptied, a child
  pushed into a composite of size 0, and a second open frame when the tokens run out
  all end in undefined behaviour: \<open>back()\<close> of an empty vector, a write through
  the null \<open>children\<close>, and \<open>clear()\<close> through a pointer into children that the
  \<open>clear()\<close> of the root has freed.
\<close>

lemma MakeExprTree_faults:
  "MakeExprTree_bytes [56, 58, 102, 1, 115, 1, 102, 67, 1, 67, 1, 0] = Some (Inl EmptyStackBack)"
  "MakeExprTree_bytes [56, 58, 102, 2, 115, 1, 102, 102, 0, 115, 1, 103, 67, 1, 0]
     = Some (Inl ChildSlotOutOfRange)"
  "MakeExprTree_bytes [56, 58, 102, 1, 115, 1, 102, 102, 1, 115, 1, 103] = Some (Inl DanglingNode)"
  by (simp_all add: MakeExprTree_bytes_def MakeExprTree_def build_from_def build_loop.simps
      build_step_def current_slot_def assign_slot_def push_frame_def
      move_to_next_node.simps ExprNode_new_def ExprNode_default_def
      parse_def Parser_of_def parse_loop.simps head_of_byte_def parse_end_def
      parse_number_def parse_text_def parse_counted_def read_varint_def
      read_varint_from.simps Token_len_def Let_def)

end
